theory Spec2Isabelle
  imports Complex_Main
begin

section \<open>The data model of \<open>extHostDocumentData.ts\<close>\<close>

text \<open>
  \<open>Position\<close>, \<open>Range\<close> and the line descriptors are immutable objects, and the code
  compares them by reference (\<open>===\<close>). An object is therefore modelled by the address it
  was allocated at together with its fields; \<open>new\<close> takes the next free address from an
  allocation counter that every operation receives and hands back. The same object is
  the same address and, objects being immutable, the same fields with it: \<open>===\<close> is
  equality of these values.
\<close>

type_synonym addr = nat

datatype error =
    InvalidArgument       \<comment> \<open>\<open>throw new Error('Invalid argument')\<close>\<close>
  | IllegalValueForLine   \<comment> \<open>\<open>throw new Error('Illegal value for `line`')\<close>\<close>
  | TypeError             \<comment> \<open>a property read on \<open>undefined\<close>\<close>
  | HelperError           \<comment> \<open>an exception raised inside an imported word helper\<close>

text \<open>
  Modelled from the spec: the classes \<open>Position\<close> and \<open>Range\<close> of \<open>extHostTypes\<close> are
  imported, not defined, by the source file. A position is a pair of a line and a
  character. A range is an ordered pair of positions, \<open>start \<le> end\<close> in the order by
  line, then character: its constructor makes a position of each pair of coordinates
  it is given and stores the two in that order, the earlier one as \<open>start\<close>, so it
  exchanges them when the first is not before the second. \<open>isEmpty\<close> is \<open>start == end\<close>
  and \<open>isSingleLine\<close> is \<open>start.line == end.line\<close>. Coordinates are integers; the code
  compares them with 0, so they are signed.
\<close>

record Position =
  position_ref :: addr
  line :: int
  character :: int

record Range =
  range_ref :: addr
  start :: Position
  end' :: Position

definition isBefore :: "Position \<Rightarrow> Position \<Rightarrow> bool" where
  "isBefore p q \<longleftrightarrow> line p < line q \<or> (line p = line q \<and> character p < character q)"

definition new_Position :: "int \<Rightarrow> int \<Rightarrow> addr \<Rightarrow> Position \<times> addr" where
  "new_Position l c h = (\<lparr>position_ref = h, line = l, character = c\<rparr>, Suc h)"

definition new_Range :: "int \<Rightarrow> int \<Rightarrow> int \<Rightarrow> int \<Rightarrow> addr \<Rightarrow> Range \<times> addr" where
  "new_Range startLine startCharacter endLine endCharacter h =
     (let (s, h1) = new_Position startLine startCharacter h;
          (e, h2) = new_Position endLine endCharacter h1
      in if isBefore s e
         then (\<lparr>range_ref = h2, start = s, end' = e\<rparr>, Suc h2)
         else (\<lparr>range_ref = h2, start = e, end' = s\<rparr>, Suc h2))"

definition isEmpty :: "Range \<Rightarrow> bool" where
  "isEmpty r \<longleftrightarrow>
     line (start r) = line (end' r) \<and> character (start r) = character (end' r)"

definition isSingleLine :: "Range \<Rightarrow> bool" where
  "isSingleLine r \<longleftrightarrow> line (start r) = line (end' r)"

text \<open>The coordinates of a position, without its identity.\<close>

definition coords :: "Position \<Rightarrow> int \<times> int" where
  "coords p = (line p, character p)"

text \<open>
  The line descriptor built by \<open>lineAt\<close> with \<open>Object.freeze\<close>. On the last line
  \<open>rangeIncludingLineBreak\<close> is the very object stored in \<open>range\<close>.
\<close>

record TextLine =
  textLine_ref :: addr
  lineNumber :: int
  range' :: Range
  rangeIncludingLineBreak :: Range
  text' :: string
  firstNonWhitespaceCharacterIndex :: int
  isEmptyOrWhitespace :: bool

text \<open>
  The fields of \<open>ExtHostDocumentData\<close> (with those inherited from \<open>MirrorModel2\<close>) that
  the operations below read or write. \<open>_textLines\<close> is a JavaScript array written at
  arbitrary indices, so it is a partial map from indices to descriptors. A string is the
  list of its code units, and its length their number; a \<open>char\<close> stands for a code
  unit below 256.
\<close>

record ExtHostDocumentData =
  lines :: "string list"
  eol :: string
  versionId :: int
  languageId :: string
  isDirty :: bool
  textLines :: "nat \<rightharpoonup> TextLine"

text \<open>
  What a caller can pass where the code tests the argument at run time
  (\<open>instanceof Position\<close>, \<open>instanceof Range\<close>, \<open>typeof ... === 'number'\<close>).
\<close>

datatype jsval =
    PositionObj Position
  | RangeObj Range
  | Number int
  | Undefined

text \<open>
  \<open>this._lines[i]\<close>: a read outside the array yields \<open>undefined\<close> (\<open>None\<close>); reading
  \<open>.length\<close> or calling \<open>.substring\<close> on it raises a \<open>TypeError\<close>.
\<close>

definition lineRead :: "string list \<Rightarrow> int \<Rightarrow> string option" where
  "lineRead ls i = (if 0 \<le> i \<and> i < int (length ls) then Some (ls ! nat i) else None)"

section \<open>Validation of positions and ranges\<close>

definition validatePosition ::
  "ExtHostDocumentData \<Rightarrow> jsval \<Rightarrow> addr \<Rightarrow> error + (Position \<times> addr)" where
  "validatePosition d v h =
     (case v of
        PositionObj position \<Rightarrow>
          (let l = line position; c = character position in
           case
             (if l < 0 then Inr (0, 0, True)
              else if l \<ge> int (length (lines d)) then
                (let l' = int (length (lines d)) - 1 in
                 case lineRead (lines d) l' of
                   None \<Rightarrow> Inl TypeError
                 | Some s \<Rightarrow> Inr (l', int (length s), True))
              else
                (case lineRead (lines d) l of
                   None \<Rightarrow> Inl TypeError
                 | Some s \<Rightarrow>
                     (let maxCharacter = int (length s) in
                      if c < 0 then Inr (l, 0, True)
                      else if c > maxCharacter then Inr (l, maxCharacter, True)
                      else Inr (l, c, False))))
           of
             Inl e \<Rightarrow> Inl e
           | Inr (l1, c1, hasChanged) \<Rightarrow>
               if \<not> hasChanged then Inr (position, h)
               else Inr (new_Position l1 c1 h))
      | _ \<Rightarrow> Inl InvalidArgument)"

definition validateRange ::
  "ExtHostDocumentData \<Rightarrow> jsval \<Rightarrow> addr \<Rightarrow> error + (Range \<times> addr)" where
  "validateRange d v h =
     (case v of
        RangeObj rng \<Rightarrow>
          (case validatePosition d (PositionObj (start rng)) h of
             Inl e \<Rightarrow> Inl e
           | Inr (start1, h1) \<Rightarrow>
               (case validatePosition d (PositionObj (end' rng)) h1 of
                  Inl e \<Rightarrow> Inl e
                | Inr (end1, h2) \<Rightarrow>
                    if start1 = start rng \<and> end1 = end' rng
                    then Inr (rng, h2)
                    else Inr (new_Range (line start1) (character start1)
                                (line end1) (character end1) h2)))
      | _ \<Rightarrow> Inl InvalidArgument)"

section \<open>Text of a range\<close>

text \<open>
  \<open>String.prototype.substring(start, end)\<close>: both indices are clamped into
  \<open>[0, length]\<close> and swapped when \<open>start > end\<close>; with one argument the end is the
  length of the string.
\<close>

definition substring :: "string \<Rightarrow> int \<Rightarrow> int \<Rightarrow> string" where
  "substring s a b =
     (let n = int (length s);
          a1 = min (max a 0) n;
          b1 = min (max b 0) n;
          lo = min a1 b1;
          hi = max a1 b1
      in take (nat (hi - lo)) (drop (nat lo) s))"

definition substringFrom :: "string \<Rightarrow> int \<Rightarrow> string" where
  "substringFrom s a = substring s a (int (length s))"

text \<open>
  \<open>Array.prototype.join(separator)\<close>; an \<open>undefined\<close> element contributes the empty
  string.
\<close>

fun join :: "string option list \<Rightarrow> string \<Rightarrow> string" where
  "join [] sep = []"
| "join [x] sep = (case x of None \<Rightarrow> [] | Some s \<Rightarrow> s)"
| "join (x # xs) sep = (case x of None \<Rightarrow> [] | Some s \<Rightarrow> s) @ sep @ join xs sep"

text \<open>
  The loop \<open>for (let i = startLineIndex + 1; i < endLineIndex; i++)\<close> of
  \<open>_getTextInRange\<close>, pushing \<open>this._lines[i]\<close> onto \<open>resultLines\<close>.
\<close>

function pushLines :: "string list \<Rightarrow> int \<Rightarrow> int \<Rightarrow> string option list \<Rightarrow> string option list" where
  "pushLines ls i endLineIndex resultLines =
     (if i < endLineIndex
      then pushLines ls (i + 1) endLineIndex (resultLines @ [lineRead ls i])
      else resultLines)"
  by pat_completeness auto
termination
  by (relation "measure (\<lambda>(ls, i, endLineIndex, resultLines). nat (endLineIndex - i))") auto

declare pushLines.simps [simp del]

definition getTextInRange ::
  "ExtHostDocumentData \<Rightarrow> jsval \<Rightarrow> addr \<Rightarrow> error + (string \<times> addr)" where
  "getTextInRange d v h =
     (case validateRange d v h of
        Inl e \<Rightarrow> Inl e
      | Inr (rng, h1) \<Rightarrow>
          if isEmpty rng then Inr ([], h1)
          else if isSingleLine rng then
            (case lineRead (lines d) (line (start rng)) of
               None \<Rightarrow> Inl TypeError
             | Some s \<Rightarrow>
                 Inr (substring s (character (start rng)) (character (end' rng)), h1))
          else
            (let lineEnding = eol d;
                 startLineIndex = line (start rng);
                 endLineIndex = line (end' rng)
             in case lineRead (lines d) startLineIndex of
                  None \<Rightarrow> Inl TypeError
                | Some s \<Rightarrow>
                    (let resultLines =
                           pushLines (lines d) (startLineIndex + 1) endLineIndex
                             [Some (substringFrom s (character (start rng)))]
                     in case lineRead (lines d) endLineIndex of
                          None \<Rightarrow> Inl TypeError
                        | Some e \<Rightarrow>
                            Inr (join (resultLines
                                   @ [Some (substring e 0 (character (end' rng)))])
                                   lineEnding, h1))))"

text \<open>
  The text of a range as the specification words it, for a range whose endpoints are
  valid positions: nothing for an empty range; on one line the characters between the
  two character offsets; otherwise the rest of the start line from \<open>start.character\<close>,
  every whole line strictly between the two lines, and the first \<open>end.character\<close>
  characters of the end line, with the document's terminator between consecutive pieces.
\<close>

definition linesStrictlyBetween :: "string list \<Rightarrow> int \<Rightarrow> int \<Rightarrow> string list" where
  "linesStrictlyBetween ls a b = map (\<lambda>i. ls ! i) [nat (a + 1) ..< nat b]"

definition rangeText :: "ExtHostDocumentData \<Rightarrow> Range \<Rightarrow> string" where
  "rangeText d r =
     (let sl = nat (line (start r)); sc = nat (character (start r));
          el = nat (line (end' r)); ec = nat (character (end' r))
      in if isEmpty r then []
         else if isSingleLine r then
           take (max sc ec - min sc ec) (drop (min sc ec) (lines d ! sl))
         else
           drop sc (lines d ! sl) @ eol d
           @ concat (map (\<lambda>l. l @ eol d)
                       (linesStrictlyBetween (lines d) (line (start r)) (line (end' r))))
           @ take ec (lines d ! el))"

section \<open>Line descriptors\<close>

text \<open>
  The characters matched by \<open>\s\<close> among the code units below 256, which are the ones
  a \<open>char\<close> stands for: tab, line feed, vertical tab, form feed, carriage return, space
  and no-break space.
\<close>

definition isWhitespace :: "char \<Rightarrow> bool" where
  "isWhitespace c \<longleftrightarrow> (of_char c :: nat) \<in> {9, 10, 11, 12, 13, 32, 160}"

text \<open>
  \<open>lineAt\<close> returns the descriptor, and the document with its cache as the call leaves
  it. When the argument is neither a \<open>Position\<close> nor a number, \<open>line\<close> stays
  \<open>undefined\<close>: both comparisons of the range check are false, no cache slot is found,
  \<open>text\<close> is \<open>undefined\<close> and \<open>text.length\<close> raises.
\<close>

definition lineAt ::
  "ExtHostDocumentData \<Rightarrow> jsval \<Rightarrow> addr \<Rightarrow> error + (TextLine \<times> ExtHostDocumentData \<times> addr)" where
  "lineAt d lineOrPosition h =
     (case (case lineOrPosition of
              PositionObj p \<Rightarrow> Some (line p)
            | Number n \<Rightarrow> Some n
            | _ \<Rightarrow> None) of
        None \<Rightarrow> Inl TypeError
      | Some l \<Rightarrow>
          if l < 0 \<or> l \<ge> int (length (lines d)) then Inl IllegalValueForLine
          else
            (let result = textLines d (nat l) in
             if (case result of
                   None \<Rightarrow> True
                 | Some t \<Rightarrow> lineNumber t \<noteq> l \<or> Some (text' t) \<noteq> lineRead (lines d) l)
             then
               (case lineRead (lines d) l of
                  None \<Rightarrow> Inl TypeError
                | Some txt \<Rightarrow>
                    (let firstNonWhitespace = int (length (takeWhile isWhitespace txt));
                         (rng, h1) = new_Range l 0 l (int (length txt)) h;
                         (rngIncludingLineBreak, h2) =
                            (if l < int (length (lines d)) - 1
                             then new_Range l 0 (l + 1) 0 h1
                             else (rng, h1));
                         fresh = \<lparr>textLine_ref = h2,
                                  lineNumber = l,
                                  range' = rng,
                                  rangeIncludingLineBreak = rngIncludingLineBreak,
                                  text' = txt,
                                  firstNonWhitespaceCharacterIndex = firstNonWhitespace,
                                  isEmptyOrWhitespace =
                                    (firstNonWhitespace = int (length txt))\<rparr>
                     in Inr (fresh,
                             d\<lparr>textLines := (textLines d)(nat l \<mapsto> fresh)\<rparr>,
                             Suc h2)))
             else
               (case result of
                  Some t \<Rightarrow> Inr (t, d, h)
                | None \<Rightarrow> Inl TypeError)))"

section \<open>Offsets\<close>

text \<open>
  Modelled from the spec: the prefix-sum index \<open>_lineStarts\<close> that \<open>MirrorModel2\<close>
  builds in \<open>_ensureLineStarts\<close>, with its operations \<open>getAccumulatedValue\<close> and
  \<open>getIndexOf\<close>, is not in the source file. Each line contributes the length of its
  text plus the width of the terminator. \<open>getAccumulatedValue i\<close> is the total
  contribution of the lines up to and including index \<open>i\<close>, and 0 for index \<open>-1\<close>, so
  that \<open>offsetAt\<close>, which asks for index \<open>position.line - 1\<close>, counts the lines strictly
  before the position's line: an offset addresses the document as if all lines were
  concatenated with the terminator. \<open>getIndexOf offset\<close> is the line the offset falls
  in and the offset's distance from the start of that line, which exceeds the line's
  length inside the terminator; an offset past the end falls in the last line.
\<close>

definition lineStarts :: "ExtHostDocumentData \<Rightarrow> nat list" where
  "lineStarts d = map (\<lambda>l. length l + length (eol d)) (lines d)"

definition getAccumulatedValue :: "nat list \<Rightarrow> int \<Rightarrow> int" where
  "getAccumulatedValue vs i = (if i < 0 then 0 else int (sum_list (take (nat i + 1) vs)))"

fun getIndexOf :: "nat list \<Rightarrow> nat \<Rightarrow> nat \<times> nat" where
  "getIndexOf [] offset = (0, offset)"
| "getIndexOf [v] offset = (0, offset)"
| "getIndexOf (v # vs) offset =
     (if offset < v then (0, offset)
      else (let (i, r) = getIndexOf vs (offset - v) in (Suc i, r)))"

definition offsetAt ::
  "ExtHostDocumentData \<Rightarrow> jsval \<Rightarrow> addr \<Rightarrow> error + (int \<times> addr)" where
  "offsetAt d v h =
     (case validatePosition d v h of
        Inl e \<Rightarrow> Inl e
      | Inr (position, h1) \<Rightarrow>
          Inr (getAccumulatedValue (lineStarts d) (line position - 1)
                 + character position, h1))"

text \<open>
  The offset is a JavaScript number, which \<open>Math.floor\<close> makes integral before
  \<open>Math.max\<close> makes it non-negative.
\<close>

definition positionAt ::
  "ExtHostDocumentData \<Rightarrow> rat \<Rightarrow> addr \<Rightarrow> error + (Position \<times> addr)" where
  "positionAt d offset h =
     (let offset1 = \<lfloor>offset\<rfloor>;
          offset2 = max 0 offset1;
          (index, remainder) = getIndexOf (lineStarts d) (nat offset2)
      in case lineRead (lines d) (int index) of
           None \<Rightarrow> Inl TypeError
         | Some s \<Rightarrow>
             (let lineLength = int (length s)
              in Inr (new_Position (int index) (min (int remainder) lineLength) h)))"

section \<open>The word at a position\<close>

text \<open>
  The module-level map \<open>_modeId2WordDefinition\<close> from language identifiers to word
  patterns. The type \<open>'re\<close> stands for \<open>RegExp\<close>.
\<close>

type_synonym 're wordDefinitions = "string \<rightharpoonup> 're"

definition setWordDefinitionFor ::
  "string \<Rightarrow> 're \<Rightarrow> 're wordDefinitions \<Rightarrow> 're wordDefinitions" where
  "setWordDefinitionFor modeId wordDefinition m = m(modeId \<mapsto> wordDefinition)"

definition getWordDefinitionFor :: "string \<Rightarrow> 're wordDefinitions \<Rightarrow> 're option" where
  "getWordDefinitionFor modeId m = m modeId"

text \<open>
  The helpers imported from \<open>vs/base/common/strings\<close> and
  \<open>vs/editor/common/model/wordHelper\<close> are not in the source file; they are parameters
  of the model. \<open>ensureValidWordDefinition\<close> receives what the selection left in
  \<open>regexp\<close>, which is \<open>undefined\<close> when no pattern is registered, and \<open>getWordAtText\<close>
  receives what \<open>this._lines[position.line]\<close> evaluates to. Either may raise.
\<close>

record wordAtText =
  word :: string
  startColumn :: int
  endColumn :: int

record 're wordHelper =
  regExpLeadsToEndlessLoop :: "'re \<Rightarrow> bool"
  ensureValidWordDefinition :: "'re option \<Rightarrow> error + 're"
  getWordAtText :: "int \<Rightarrow> 're \<Rightarrow> string option \<Rightarrow> int \<Rightarrow> error + wordAtText option"

text \<open>
  The second half of \<open>getWordRangeAtPosition\<close>, from the call of \<open>getWordAtText\<close> on:
  the scan of the line with the pattern left in \<open>regexp\<close>, and the range built from
  what the scan found.
\<close>

definition wordRangeWith ::
  "'re wordHelper \<Rightarrow> ExtHostDocumentData \<Rightarrow> Position \<Rightarrow> 're option \<Rightarrow> addr
     \<Rightarrow> error + (Range option \<times> addr)" where
  "wordRangeWith H d position regexp h1 =
     (case ensureValidWordDefinition H regexp of
        Inl e \<Rightarrow> Inl e
      | Inr wordDefinition \<Rightarrow>
          (case getWordAtText H (character position + 1) wordDefinition
                  (lineRead (lines d) (line position)) 0 of
             Inl e \<Rightarrow> Inl e
           | Inr None \<Rightarrow> Inr (None, h1)
           | Inr (Some w) \<Rightarrow>
               (let (r, h2) = new_Range (line position) (startColumn w - 1)
                                (line position) (endColumn w - 1) h1
                in Inr (Some r, h2))))"

definition getWordRangeAtPosition ::
  "'re wordHelper \<Rightarrow> 're wordDefinitions \<Rightarrow> ExtHostDocumentData \<Rightarrow> jsval \<Rightarrow> 're option
     \<Rightarrow> addr \<Rightarrow> error + (Range option \<times> addr)" where
  "getWordRangeAtPosition H m d v regexp h =
     (case validatePosition d v h of
        Inl e \<Rightarrow> Inl e
      | Inr (position, h1) \<Rightarrow>
          (let regexp1 =
                 (case regexp of
                    None \<Rightarrow> getWordDefinitionFor (languageId d) m
                  | Some re \<Rightarrow>
                      if regExpLeadsToEndlessLoop H re
                      then getWordDefinitionFor (languageId d) m
                      else Some re)
           in wordRangeWith H d position regexp1 h1))"

section \<open>Notions used to state the properties\<close>

text \<open>A position that validation has nothing to change.\<close>

definition validPosition :: "ExtHostDocumentData \<Rightarrow> Position \<Rightarrow> bool" where
  "validPosition d p \<longleftrightarrow>
     0 \<le> line p \<and> line p < int (length (lines d)) \<and>
     0 \<le> character p \<and> character p \<le> int (length (lines d ! nat (line p)))"

text \<open>The result of an operation, reduced to the coordinates of the position it returns.\<close>

definition resultCoords :: "error + (Position \<times> addr) \<Rightarrow> error + (int \<times> int)" where
  "resultCoords res = (case res of Inl e \<Rightarrow> Inl e | Inr (p, h) \<Rightarrow> Inr (coords p))"

text \<open>\<open>p\<close> lies after \<open>q\<close> in the order by line, then character.\<close>

definition isAfter :: "Position \<Rightarrow> Position \<Rightarrow> bool" where
  "isAfter p q \<longleftrightarrow> line q < line p \<or> (line p = line q \<and> character q < character p)"

text \<open>
  Two pairs of coordinates in the order a range keeps them: the earlier one first, by
  line, then character; and the same for the coordinates two validations return.
\<close>

definition coordsBefore :: "int \<times> int \<Rightarrow> int \<times> int \<Rightarrow> bool" where
  "coordsBefore a b \<longleftrightarrow> fst a < fst b \<or> (fst a = fst b \<and> snd a < snd b)"

definition orderedEndpoints :: "int \<times> int \<Rightarrow> int \<times> int \<Rightarrow> (int \<times> int) \<times> (int \<times> int)" where
  "orderedEndpoints a b = (if coordsBefore a b then (a, b) else (b, a))"

definition orderedValidated ::
  "error + (int \<times> int) \<Rightarrow> error + (int \<times> int) \<Rightarrow> error + ((int \<times> int) \<times> (int \<times> int))" where
  "orderedValidated ra rb =
     (case ra of
        Inl e \<Rightarrow> Inl e
      | Inr a \<Rightarrow> (case rb of Inl e \<Rightarrow> Inl e | Inr b \<Rightarrow> Inr (orderedEndpoints a b)))"

text \<open>
  The scan of a line whose text is at hand: what the second half of
  \<open>getWordRangeAtPosition\<close> does when \<open>this._lines[position.line]\<close> is the string \<open>txt\<close>.
\<close>

definition wordRangeOfText ::
  "'re wordHelper \<Rightarrow> Position \<Rightarrow> string \<Rightarrow> 're option \<Rightarrow> addr
     \<Rightarrow> error + (Range option \<times> addr)" where
  "wordRangeOfText H position txt regexp h1 =
     (case ensureValidWordDefinition H regexp of
        Inl e \<Rightarrow> Inl e
      | Inr wordDefinition \<Rightarrow>
          (case getWordAtText H (character position + 1) wordDefinition (Some txt) 0 of
             Inl e \<Rightarrow> Inl e
           | Inr None \<Rightarrow> Inr (None, h1)
           | Inr (Some w) \<Rightarrow>
               (let (r, h2) = new_Range (line position) (startColumn w - 1)
                                (line position) (endColumn w - 1) h1
                in Inr (Some r, h2))))"

text \<open>
  The helpers with a scan that raises when the text it is handed is \<open>undefined\<close>, and
  is the given scan on every string.
\<close>

definition raisingOnUndefined :: "'re wordHelper \<Rightarrow> 're wordHelper" where
  "raisingOnUndefined H =
     H\<lparr>getWordAtText :=
         (\<lambda>column re txt textOffset.
            case txt of
              None \<Rightarrow> Inl TypeError
            | Some s \<Rightarrow> getWordAtText H column re (Some s) textOffset)\<rparr>"

text \<open>
  What the specification asks of a recomputation by \<open>lineAt\<close> at index \<open>i\<close>, started
  with allocation counter \<open>h\<close>: the call returns a descriptor of the current text of the
  line, which holds the length of the leading whitespace run, whether the line is empty
  or all whitespace, the range of the line, and the range up to the start of the next
  line (on the last line, the range of the line itself); the descriptor is an object
  allocated by the call, and the document is left with that descriptor in cache slot \<open>i\<close>
  and otherwise as it was.
\<close>

definition recomputedFrom ::
  "ExtHostDocumentData \<Rightarrow> int \<Rightarrow> addr
     \<Rightarrow> error + (TextLine \<times> ExtHostDocumentData \<times> addr) \<Rightarrow> bool" where
  "recomputedFrom d i h res =
     (case res of
        Inl e \<Rightarrow> False
      | Inr (t, d1, h1) \<Rightarrow>
          lineNumber t = i
          \<and> text' t = lines d ! nat i
          \<and> firstNonWhitespaceCharacterIndex t
              = int (length (takeWhile isWhitespace (lines d ! nat i)))
          \<and> isEmptyOrWhitespace t = list_all isWhitespace (lines d ! nat i)
          \<and> coords (start (range' t)) = (i, 0)
          \<and> coords (end' (range' t)) = (i, int (length (lines d ! nat i)))
          \<and> (if i < int (length (lines d)) - 1
              then coords (start (rangeIncludingLineBreak t)) = (i, 0)
                   \<and> coords (end' (rangeIncludingLineBreak t)) = (i + 1, 0)
              else rangeIncludingLineBreak t = range' t)
          \<and> h \<le> textLine_ref t \<and> textLine_ref t < h1
          \<and> d1 = d\<lparr>textLines := (textLines d)(nat i \<mapsto> t)\<rparr>)"

text \<open>The descriptor an operation returns, without the state it leaves.\<close>

definition returnedLine ::
  "error + (TextLine \<times> ExtHostDocumentData \<times> addr) \<Rightarrow> error + TextLine" where
  "returnedLine res = (case res of Inl e \<Rightarrow> Inl e | Inr (t, d1, h1) \<Rightarrow> Inr t)"

section \<open>Example documents\<close>

text \<open>The document of the specification's examples: two lines, terminator line feed.\<close>

definition exampleDocument :: ExtHostDocumentData where
  "exampleDocument =
     \<lparr>lines = [''  foo bar'', ''baz''], eol = [CHR 0x0A], versionId = 1,
      languageId = ''plaintext'', isDirty = False, textLines = Map.empty\<rparr>"

text \<open>A document constructed with an empty array of lines.\<close>

definition emptyDocument :: ExtHostDocumentData where
  "emptyDocument =
     \<lparr>lines = [], eol = [CHR 0x0A], versionId = 1,
      languageId = ''plaintext'', isDirty = False, textLines = Map.empty\<rparr>"

text \<open>A document constructed with the empty string as its terminator.\<close>

definition unterminatedDocument :: ExtHostDocumentData where
  "unterminatedDocument =
     \<lparr>lines = [''a'', ''b''], eol = [], versionId = 1,
      languageId = ''plaintext'', isDirty = False, textLines = Map.empty\<rparr>"

text \<open>Objects already allocated, for the examples.\<close>

definition mkPosition :: "addr \<Rightarrow> int \<Rightarrow> int \<Rightarrow> Position" where
  "mkPosition a l c = \<lparr>position_ref = a, line = l, character = c\<rparr>"

definition mkRange :: "addr \<Rightarrow> Position \<Rightarrow> Position \<Rightarrow> Range" where
  "mkRange a s e = \<lparr>range_ref = a, start = s, end' = e\<rparr>"

text \<open>
  The example document after \<open>lineAt(0)\<close> has cached the descriptor of its first line,
  and with a descriptor in slot 1 that was computed when the second line read \<open>qux\<close>.
\<close>

definition cachedLine0 :: TextLine where
  "cachedLine0 =
     \<lparr>textLine_ref = 6, lineNumber = 0,
      range' = mkRange 2 (mkPosition 0 0 0) (mkPosition 1 0 9),
      rangeIncludingLineBreak = mkRange 5 (mkPosition 3 0 0) (mkPosition 4 1 0),
      text' = ''  foo bar'', firstNonWhitespaceCharacterIndex = 2,
      isEmptyOrWhitespace = False\<rparr>"

definition staleLine1 :: TextLine where
  "staleLine1 =
     \<lparr>textLine_ref = 10, lineNumber = 1,
      range' = mkRange 9 (mkPosition 7 1 0) (mkPosition 8 1 3),
      rangeIncludingLineBreak = mkRange 9 (mkPosition 7 1 0) (mkPosition 8 1 3),
      text' = ''qux'', firstNonWhitespaceCharacterIndex = 0,
      isEmptyOrWhitespace = False\<rparr>"

definition cachedDocument :: ExtHostDocumentData where
  "cachedDocument =
     exampleDocument\<lparr>textLines := [0 \<mapsto> cachedLine0, 1 \<mapsto> staleLine1]\<rparr>"

text \<open>
  Word helpers for the examples, with patterns written as strings: one pattern is
  judged to lead to an endless loop, every pattern is accepted as a word definition,
  with a fallback when none is given, and the scan finds the word \<open>foo\<close> at columns 3
  to 6 when it is run with the pattern registered for \<open>plaintext\<close>, and nothing
  otherwise.
\<close>

definition exampleHelper :: "string wordHelper" where
  "exampleHelper =
     \<lparr>regExpLeadsToEndlessLoop = (\<lambda>re. re = ''(a+)+''),
      ensureValidWordDefinition =
        (\<lambda>r. case r of None \<Rightarrow> Inr ''fallback'' | Some re \<Rightarrow> Inr re),
      getWordAtText =
        (\<lambda>column re txt textOffset.
           if re = ''[a-z]+''
           then Inr (Some \<lparr>word = ''foo'', startColumn = 3, endColumn = 6\<rparr>)
           else Inr None)\<rparr>"

definition exampleWordDefinitions :: "string wordDefinitions" where
  "exampleWordDefinitions = setWordDefinitionFor ''plaintext'' ''[a-z]+'' Map.empty"

text \<open>
  Word helpers whose scan takes the whole line it is handed for the word, and raises
  when what it is handed is \<open>undefined\<close>.
\<close>

definition wholeLineHelper :: "string wordHelper" where
  "wholeLineHelper =
     \<lparr>regExpLeadsToEndlessLoop = (\<lambda>re. False),
      ensureValidWordDefinition =
        (\<lambda>r. case r of None \<Rightarrow> Inr ''fallback'' | Some re \<Rightarrow> Inr re),
      getWordAtText =
        (\<lambda>column re txt textOffset.
           case txt of
             None \<Rightarrow> Inl TypeError
           | Some s \<Rightarrow>
               Inr (Some \<lparr>word = s, startColumn = 1, endColumn = int (length s) + 1\<rparr>))\<rparr>"

section \<open>Properties of validation\<close>

lemma lineRead_in_range:
  "0 \<le> i \<Longrightarrow> i < int (length ls) \<Longrightarrow> lineRead ls i = Some (ls ! nat i)"
  by (simp add: lineRead_def)

lemma lineRead_last:
  assumes "ls \<noteq> []"
  shows "lineRead ls (int (length ls) - 1) = Some (last ls)"
proof -
  from assms have "0 < length ls" by simp
  then have "nat (int (length ls) - 1) = length ls - 1" by linarith
  with assms show ?thesis by (simp add: lineRead_def last_conv_nth)
qed

lemma validatePosition_negative_line:
  "line p < 0 \<Longrightarrow> validatePosition d (PositionObj p) h = Inr (new_Position 0 0 h)"
  by (simp add: validatePosition_def)

lemma validatePosition_line_beyond:
  assumes "lines d \<noteq> []" and "line p \<ge> int (length (lines d))"
  shows "validatePosition d (PositionObj p) h =
           Inr (new_Position (int (length (lines d)) - 1) (int (length (last (lines d)))) h)"
proof -
  from assms(2) have "\<not> line p < 0" by linarith
  then show ?thesis
    using assms(2) lineRead_last [OF assms(1)] by (simp add: validatePosition_def)
qed

lemma validatePosition_line_within:
  assumes "0 \<le> line p" and "line p < int (length (lines d))"
  shows "validatePosition d (PositionObj p) h =
           (if character p < 0 then Inr (new_Position (line p) 0 h)
            else if character p > int (length (lines d ! nat (line p)))
            then Inr (new_Position (line p) (int (length (lines d ! nat (line p)))) h)
            else Inr (p, h))"
  using assms by (simp add: validatePosition_def lineRead_in_range Let_def)

lemma validatePosition_valid:
  "validPosition d p \<Longrightarrow> validatePosition d (PositionObj p) h = Inr (p, h)"
  by (simp add: validPosition_def validatePosition_line_within)

text \<open>
  On a document with at least one line validation returns; what it returns is a valid
  position, and it is either the argument itself, with nothing allocated, or a new
  object at the next free address.
\<close>

lemma validatePosition_returns:
  assumes "lines d \<noteq> []"
  obtains p1 h1 where "validatePosition d (PositionObj p) h = Inr (p1, h1)"
    and "validPosition d p1"
    and "(p1 = p \<and> h1 = h \<and> validPosition d p) \<or>
         (position_ref p1 = h \<and> h1 = Suc h \<and> \<not> validPosition d p)"
proof -
  let ?n = "int (length (lines d))"
  from assms have n: "0 < ?n" by simp
  consider (neg) "line p < 0" | (beyond) "?n \<le> line p"
    | (within) "0 \<le> line p" "line p < ?n"
    by linarith
  then show thesis
  proof cases
    case neg
    let ?q = "fst (new_Position 0 0 h)"
    have "validatePosition d (PositionObj p) h = Inr (?q, Suc h)"
      using neg by (simp add: validatePosition_negative_line new_Position_def)
    moreover have "validPosition d ?q"
      using n by (simp add: validPosition_def new_Position_def)
    moreover have "position_ref ?q = h" by (simp add: new_Position_def)
    moreover have "\<not> validPosition d p" using neg by (simp add: validPosition_def)
    ultimately show thesis using that by blast
  next
    case beyond
    let ?q = "fst (new_Position (?n - 1) (int (length (last (lines d)))) h)"
    have "validatePosition d (PositionObj p) h = Inr (?q, Suc h)"
      using beyond assms by (simp add: validatePosition_line_beyond new_Position_def)
    moreover have "nat (?n - 1) = length (lines d) - 1" using n by linarith
    then have "validPosition d ?q"
      using n assms by (simp add: validPosition_def new_Position_def last_conv_nth)
    moreover have "position_ref ?q = h" by (simp add: new_Position_def)
    moreover have "\<not> validPosition d p" using beyond by (simp add: validPosition_def)
    ultimately show thesis using that by blast
  next
    case within
    note eq = validatePosition_line_within [OF within, of h]
    let ?m = "int (length (lines d ! nat (line p)))"
    consider (low) "character p < 0" | (high) "?m < character p"
      | (ok) "0 \<le> character p" "character p \<le> ?m"
      by linarith
    then show thesis
    proof cases
      case low
      let ?q = "fst (new_Position (line p) 0 h)"
      have "validatePosition d (PositionObj p) h = Inr (?q, Suc h)"
        using eq low by (simp add: new_Position_def)
      moreover have "validPosition d ?q"
        using within by (simp add: validPosition_def new_Position_def)
      moreover have "position_ref ?q = h" by (simp add: new_Position_def)
      moreover have "\<not> validPosition d p" using low by (simp add: validPosition_def)
      ultimately show thesis using that by blast
    next
      case high
      let ?q = "fst (new_Position (line p) ?m h)"
      have "\<not> character p < 0" using high by linarith
      then have "validatePosition d (PositionObj p) h = Inr (?q, Suc h)"
        using eq high by (simp add: new_Position_def)
      moreover have "validPosition d ?q"
        using within by (simp add: validPosition_def new_Position_def)
      moreover have "position_ref ?q = h" by (simp add: new_Position_def)
      moreover have "\<not> validPosition d p" using high by (simp add: validPosition_def)
      ultimately show thesis using that by blast
    next
      case ok
      have v: "validPosition d p" using within ok by (simp add: validPosition_def)
      then have "validatePosition d (PositionObj p) h = Inr (p, h)"
        by (rule validatePosition_valid)
      then show thesis using that v by blast
    qed
  qed
qed

text \<open>
  C1. On a document with at least one line, \<open>validatePosition\<close> returns the position
  \<open>(0, 0)\<close> when the line is negative, the end of the last line when the line is
  \<open>lineCount\<close> or more, and otherwise the same line with the character clamped into
  \<open>[0, length (lines[line])]\<close>.
\<close>

theorem validatePosition_clamps:
  assumes "lines d \<noteq> []"
  shows "resultCoords (validatePosition d (PositionObj p) h) =
           Inr (if line p < 0 then (0, 0)
                else if line p \<ge> int (length (lines d))
                then (int (length (lines d)) - 1, int (length (last (lines d))))
                else (line p,
                      max 0 (min (character p) (int (length (lines d ! nat (line p)))))))"
proof -
  consider (neg) "line p < 0" | (beyond) "int (length (lines d)) \<le> line p"
    | (within) "0 \<le> line p" "line p < int (length (lines d))"
    by linarith
  then show ?thesis
  proof cases
    case neg
    then show ?thesis
      by (simp add: validatePosition_negative_line resultCoords_def new_Position_def coords_def)
  next
    case beyond
    then have "\<not> line p < 0" by linarith
    then show ?thesis
      using beyond assms
      by (simp add: validatePosition_line_beyond resultCoords_def new_Position_def coords_def)
  next
    case within
    then show ?thesis
      by (simp add: validatePosition_line_within resultCoords_def new_Position_def coords_def)
  qed
qed

theorem validatePosition_clamps_witness:
  "lines exampleDocument \<noteq> []
   \<and> resultCoords (validatePosition exampleDocument (PositionObj (mkPosition 0 (-1) 5)) 1) = Inr (0, 0)
   \<and> resultCoords (validatePosition exampleDocument (PositionObj (mkPosition 0 10 0)) 1) = Inr (1, 3)
   \<and> resultCoords (validatePosition exampleDocument (PositionObj (mkPosition 0 0 42)) 1) = Inr (0, 9)"
  using validatePosition_clamps [of exampleDocument "mkPosition 0 (-1) 5" 1]
    validatePosition_clamps [of exampleDocument "mkPosition 0 10 0" 1]
    validatePosition_clamps [of exampleDocument "mkPosition 0 0 42" 1]
  by (simp add: exampleDocument_def mkPosition_def)

lemma resultCoords_counter:
  "resultCoords (validatePosition d v h) = resultCoords (validatePosition d v h1)"
  by (simp add: validatePosition_def resultCoords_def new_Position_def coords_def Let_def
        split: jsval.splits option.splits)

lemma validateRange_valid:
  assumes "validPosition d (start r)" and "validPosition d (end' r)"
  shows "validateRange d (RangeObj r) h = Inr (r, h)"
  using assms by (simp add: validateRange_def validatePosition_valid)

lemma validateRange_unchanged:
  assumes "validatePosition d (PositionObj (start r)) h = Inr (start r, h)"
    and "validatePosition d (PositionObj (end' r)) h = Inr (end' r, h)"
  shows "validateRange d (RangeObj r) h = Inr (r, h)"
  using assms by (simp add: validateRange_def)

text \<open>
  On a document with at least one line \<open>validateRange\<close> returns a range whose endpoints
  are valid positions: the argument itself, with nothing allocated, when both of its
  endpoints are valid, and a new range built from the validated endpoints otherwise.
\<close>

lemma new_Range_result:
  assumes "new_Range a b c e h = (r, h1)"
  shows "h1 = Suc (Suc (Suc h))" and "range_ref r = Suc (Suc h)"
    and "h \<le> position_ref (start r)" and "h \<le> position_ref (end' r)"
    and "(coords (start r), coords (end' r)) = orderedEndpoints (a, b) (c, e)"
    and "\<not> isAfter (start r) (end' r)"
  using assms
  by (auto simp add: new_Range_def new_Position_def isBefore_def isAfter_def coords_def
        orderedEndpoints_def coordsBefore_def split: if_splits)

lemma validPosition_coords:
  "coords p = coords q \<Longrightarrow> validPosition d p \<longleftrightarrow> validPosition d q"
  by (simp add: validPosition_def coords_def)

lemma orderedEndpoints_cases:
  assumes "(x, y) = orderedEndpoints a b"
  shows "(x = a \<and> y = b) \<or> (x = b \<and> y = a)"
  using assms by (auto simp add: orderedEndpoints_def split: if_splits)

lemma validateRange_returns:
  assumes "lines d \<noteq> []"
  obtains r1 h1 where "validateRange d (RangeObj r) h = Inr (r1, h1)"
    and "validPosition d (start r1)" and "validPosition d (end' r1)"
    and "(r1 = r \<and> h1 = h \<and> validPosition d (start r) \<and> validPosition d (end' r)) \<or>
         (h \<le> position_ref (start r1) \<and> h \<le> position_ref (end' r1) \<and> h \<le> range_ref r1
          \<and> range_ref r1 < h1 \<and> \<not> isAfter (start r1) (end' r1)
          \<and> Inr (coords (start r1), coords (end' r1)) =
               orderedValidated (resultCoords (validatePosition d (PositionObj (start r)) h))
                 (resultCoords (validatePosition d (PositionObj (end' r)) h))
          \<and> \<not> (validPosition d (start r) \<and> validPosition d (end' r)))"
proof -
  obtain s1 k1 where s1: "validatePosition d (PositionObj (start r)) h = Inr (s1, k1)"
    and vs: "validPosition d s1"
    and ws: "(s1 = start r \<and> k1 = h \<and> validPosition d (start r)) \<or>
             (position_ref s1 = h \<and> k1 = Suc h \<and> \<not> validPosition d (start r))"
    by (rule validatePosition_returns [OF assms])
  obtain e1 k2 where e1: "validatePosition d (PositionObj (end' r)) k1 = Inr (e1, k2)"
    and ve: "validPosition d e1"
    and we: "(e1 = end' r \<and> k2 = k1 \<and> validPosition d (end' r)) \<or>
             (position_ref e1 = k1 \<and> k2 = Suc k1 \<and> \<not> validPosition d (end' r))"
    by (rule validatePosition_returns [OF assms])
  have cs: "resultCoords (validatePosition d (PositionObj (start r)) h) = Inr (coords s1)"
    using s1 by (simp add: resultCoords_def)
  have "resultCoords (validatePosition d (PositionObj (end' r)) k1) = Inr (coords e1)"
    using e1 by (simp add: resultCoords_def)
  then have ce: "resultCoords (validatePosition d (PositionObj (end' r)) h) = Inr (coords e1)"
    by (simp add: resultCoords_counter [of d _ k1 h])
  have k: "h \<le> k1" "k1 \<le> k2" using ws we by auto
  show thesis
  proof (cases "s1 = start r \<and> e1 = end' r")
    case True
    then have valid: "validPosition d (start r)" "validPosition d (end' r)"
      using vs ve by simp_all
    then have "k1 = h" "k2 = k1" using ws we by auto
    then have res: "validateRange d (RangeObj r) h = Inr (r, h)"
      using True s1 e1 by (simp add: validateRange_def)
    show thesis using that [OF res] valid by simp
  next
    case False
    then have invalid: "\<not> (validPosition d (start r) \<and> validPosition d (end' r))"
      using ws we by auto
    obtain r1 h1
      where nr: "new_Range (line s1) (character s1) (line e1) (character e1) k2 = (r1, h1)"
      by (cases "new_Range (line s1) (character s1) (line e1) (character e1) k2")
    note f = new_Range_result [OF nr]
    have "validateRange d (RangeObj r) h =
            (if s1 = start r \<and> e1 = end' r then Inr (r, k2) else Inr (r1, h1))"
      using s1 e1 nr by (simp add: validateRange_def)
    then have res: "validateRange d (RangeObj r) h = Inr (r1, h1)"
      by (simp only: if_not_P [OF False])
    have oc: "(coords (start r1), coords (end' r1)) = orderedEndpoints (coords s1) (coords e1)"
      using f(5) by (simp add: coords_def)
    then have "(coords (start r1) = coords s1 \<and> coords (end' r1) = coords e1)
               \<or> (coords (start r1) = coords e1 \<and> coords (end' r1) = coords s1)"
      by (rule orderedEndpoints_cases)
    then have v: "validPosition d (start r1)" "validPosition d (end' r1)"
      using vs ve validPosition_coords by blast+
    have ov: "Inr (coords (start r1), coords (end' r1)) =
               orderedValidated (resultCoords (validatePosition d (PositionObj (start r)) h))
                 (resultCoords (validatePosition d (PositionObj (end' r)) h))"
      using oc by (simp add: cs ce orderedValidated_def)
    have "h \<le> position_ref (start r1) \<and> h \<le> position_ref (end' r1)
          \<and> h \<le> range_ref r1 \<and> range_ref r1 < h1"
      using f(1-4) k by simp
    then show thesis using that [OF res v] f(6) ov invalid by simp
  qed
qed

text \<open>
  C9 (as amended). On a document with at least one line \<open>validatePosition\<close> is
  idempotent: it returns, and validating what it returned gives that same position
  again, as the same object and with nothing allocated.
\<close>

theorem validatePosition_idempotent:
  assumes "lines d \<noteq> []"
  shows "case validatePosition d (PositionObj p) h of
           Inl e \<Rightarrow> False
         | Inr (p1, h1) \<Rightarrow> validatePosition d (PositionObj p1) h1 = Inr (p1, h1)"
proof -
  obtain p1 h1 where "validatePosition d (PositionObj p) h = Inr (p1, h1)"
    and "validPosition d p1"
    by (rule validatePosition_returns [OF assms])
  then show ?thesis by (simp add: validatePosition_valid)
qed

theorem validatePosition_idempotent_witness:
  "lines exampleDocument \<noteq> []
   \<and> validatePosition exampleDocument (PositionObj (mkPosition 0 10 0)) 1 = Inr (mkPosition 1 1 3, 2)
   \<and> validatePosition exampleDocument (PositionObj (mkPosition 1 1 3)) 2 = Inr (mkPosition 1 1 3, 2)"
  using validatePosition_idempotent [of exampleDocument "mkPosition 0 10 0" 1]
  by (simp add: exampleDocument_def mkPosition_def validatePosition_def lineRead_def
        new_Position_def)

text \<open>
  C9 as stated, for every position of every document, fails on a document whose array of
  lines is empty: the position \<open>(-1, 5)\<close> is validated to \<open>(0, 0)\<close>, and validating
  \<open>(0, 0)\<close> reads \<open>this._lines[-1].length\<close>, which raises.
\<close>

theorem validatePosition_idempotent_counterexample:
  "validatePosition emptyDocument (PositionObj (mkPosition 0 (-1) 5)) 1 = Inr (mkPosition 1 0 0, 2)
   \<and> validatePosition emptyDocument (PositionObj (mkPosition 1 0 0)) 2 = Inl TypeError"
  by (simp add: emptyDocument_def mkPosition_def validatePosition_def lineRead_def
        new_Position_def)

text \<open>
  On a document without lines \<open>validateRange\<close> returns only when both endpoints have a
  negative line, and then with a new range from \<open>(0, 0)\<close> to \<open>(0, 0)\<close>.
\<close>

lemma validateRange_empty_returns:
  assumes "lines d = []" and "validateRange d (RangeObj r) h = Inr (r1, h1)"
  shows "r1 = fst (new_Range 0 0 0 0 (Suc (Suc h))) \<and> h1 = Suc (Suc (Suc (Suc (Suc h))))
         \<and> validatePosition d (PositionObj (start r)) h = Inr (new_Position 0 0 h)
         \<and> validatePosition d (PositionObj (end' r)) h = Inr (new_Position 0 0 h)"
proof -
  have neg: "line p < 0 \<and> p1 = fst (new_Position 0 0 k) \<and> k1 = Suc k"
    if "validatePosition d (PositionObj p) k = Inr (p1, k1)" for p k p1 k1
    using that assms(1)
    by (auto simp add: validatePosition_def lineRead_def new_Position_def Let_def
          split: if_splits)
  from assms(2) obtain s1 k1 e1 k2
    where s: "validatePosition d (PositionObj (start r)) h = Inr (s1, k1)"
      and e: "validatePosition d (PositionObj (end' r)) k1 = Inr (e1, k2)"
    by (auto simp add: validateRange_def split: sum.splits)
  note ns = neg [OF s] and ne = neg [OF e]
  have "line s1 = 0" using ns by (simp add: new_Position_def)
  then have "s1 \<noteq> start r" using ns by auto
  then have "validateRange d (RangeObj r) h =
               Inr (new_Range (line s1) (character s1) (line e1) (character e1) k2)"
    using s e by (simp add: validateRange_def)
  then have "(r1, h1) = new_Range (line s1) (character s1) (line e1) (character e1) k2"
    using assms(2) by simp
  then have "r1 = fst (new_Range 0 0 0 0 (Suc (Suc h))) \<and> h1 = Suc (Suc (Suc (Suc (Suc h))))"
    using ns ne by (simp add: new_Range_def new_Position_def isBefore_def)
  moreover have "validatePosition d (PositionObj (start r)) h = Inr (new_Position 0 0 h)"
    using ns by (simp add: validatePosition_negative_line)
  moreover have "validatePosition d (PositionObj (end' r)) h = Inr (new_Position 0 0 h)"
    using ne by (simp add: validatePosition_negative_line)
  ultimately show ?thesis by simp
qed

text \<open>
  C5. A position that is already valid comes back from \<open>validatePosition\<close> as the
  object that was passed, with nothing allocated. A range whose endpoints are both valid
  comes back from \<open>validateRange\<close> as the object that was passed, with nothing
  allocated. For any other range, what \<open>validateRange\<close> returns is a range allocated by
  the call and made of the two validated endpoints: its endpoints carry the coordinates
  that validation gives the two endpoints of the argument, in the order the constructor
  of a range puts them; the call raises only on a document without lines.
\<close>

theorem validation_preserves_identity:
  shows "(validPosition d p \<longrightarrow> validatePosition d (PositionObj p) h = Inr (p, h))
       \<and> (validPosition d (start r) \<and> validPosition d (end' r) \<longrightarrow>
            validateRange d (RangeObj r) h = Inr (r, h))
       \<and> (\<not> (validPosition d (start r2) \<and> validPosition d (end' r2)) \<longrightarrow>
            (case validateRange d (RangeObj r2) h of
               Inl e \<Rightarrow> lines d = []
             | Inr (r3, h3) \<Rightarrow>
                 h \<le> range_ref r3 \<and> range_ref r3 < h3
                 \<and> h \<le> position_ref (start r3) \<and> h \<le> position_ref (end' r3)
                 \<and> \<not> isAfter (start r3) (end' r3)
                 \<and> Inr (coords (start r3), coords (end' r3)) =
                     orderedValidated
                       (resultCoords (validatePosition d (PositionObj (start r2)) h))
                       (resultCoords (validatePosition d (PositionObj (end' r2)) h))))"
proof (intro conjI impI)
  assume "validPosition d p"
  then show "validatePosition d (PositionObj p) h = Inr (p, h)"
    by (rule validatePosition_valid)
next
  assume "validPosition d (start r) \<and> validPosition d (end' r)"
  then show "validateRange d (RangeObj r) h = Inr (r, h)"
    by (simp add: validateRange_valid)
next
  let ?goal = "case validateRange d (RangeObj r2) h of
               Inl e \<Rightarrow> lines d = []
             | Inr (r3, h3) \<Rightarrow>
                 h \<le> range_ref r3 \<and> range_ref r3 < h3
                 \<and> h \<le> position_ref (start r3) \<and> h \<le> position_ref (end' r3)
                 \<and> \<not> isAfter (start r3) (end' r3)
                 \<and> Inr (coords (start r3), coords (end' r3)) =
                     orderedValidated
                       (resultCoords (validatePosition d (PositionObj (start r2)) h))
                       (resultCoords (validatePosition d (PositionObj (end' r2)) h))"
  assume a: "\<not> (validPosition d (start r2) \<and> validPosition d (end' r2))"
  show ?goal
  proof (cases "lines d = []")
    case True
    show ?thesis
    proof (cases "validateRange d (RangeObj r2) h")
      case (Inl e)
      then show ?thesis using True by simp
    next
      case (Inr x)
      obtain r3 h3 where x: "x = (r3, h3)" by (cases x)
      note validateRange_empty_returns [OF True Inr [unfolded x]]
      then show ?thesis
        unfolding Inr x
        by (simp add: new_Range_def new_Position_def resultCoords_def coords_def
              isBefore_def isAfter_def orderedValidated_def orderedEndpoints_def
              coordsBefore_def)
    qed
  next
    case False
    obtain r3 h3 where "validateRange d (RangeObj r2) h = Inr (r3, h3)"
      and "(r3 = r2 \<and> h3 = h \<and> validPosition d (start r2) \<and> validPosition d (end' r2)) \<or>
           (h \<le> position_ref (start r3) \<and> h \<le> position_ref (end' r3) \<and> h \<le> range_ref r3
            \<and> range_ref r3 < h3 \<and> \<not> isAfter (start r3) (end' r3)
            \<and> Inr (coords (start r3), coords (end' r3)) =
                 orderedValidated
                   (resultCoords (validatePosition d (PositionObj (start r2)) h))
                   (resultCoords (validatePosition d (PositionObj (end' r2)) h))
            \<and> \<not> (validPosition d (start r2) \<and> validPosition d (end' r2)))"
      by (rule validateRange_returns [OF False])
    with a show ?thesis by auto
  qed
qed

theorem validation_preserves_identity_witness:
  "validPosition exampleDocument (mkPosition 0 0 5)
   \<and> validatePosition exampleDocument (PositionObj (mkPosition 0 0 5)) 6
       = Inr (mkPosition 0 0 5, 6)
   \<and> validPosition exampleDocument (mkPosition 0 0 2)
   \<and> validPosition exampleDocument (mkPosition 1 1 3)
   \<and> validateRange exampleDocument
        (RangeObj (mkRange 2 (mkPosition 0 0 2) (mkPosition 1 1 3))) 6
       = Inr (mkRange 2 (mkPosition 0 0 2) (mkPosition 1 1 3), 6)
   \<and> \<not> validPosition exampleDocument (mkPosition 4 10 0)
   \<and> validateRange exampleDocument
        (RangeObj (mkRange 5 (mkPosition 3 0 2) (mkPosition 4 10 0))) 6
       = Inr (mkRange 9 (mkPosition 7 0 2) (mkPosition 8 1 3), 10)
   \<and> \<not> validPosition exampleDocument (mkPosition 4 0 42)
   \<and> validateRange exampleDocument
        (RangeObj (mkRange 5 (mkPosition 3 1 2) (mkPosition 4 0 42))) 6
       = Inr (mkRange 9 (mkPosition 8 0 9) (mkPosition 7 1 2), 10)"
  using validation_preserves_identity
    [of exampleDocument "mkPosition 0 0 5" 6
        "mkRange 2 (mkPosition 0 0 2) (mkPosition 1 1 3)"
        "mkRange 5 (mkPosition 3 0 2) (mkPosition 4 10 0)"]
    validation_preserves_identity
    [of exampleDocument "mkPosition 0 0 5" 6
        "mkRange 2 (mkPosition 0 0 2) (mkPosition 1 1 3)"
        "mkRange 5 (mkPosition 3 1 2) (mkPosition 4 0 42)"]
  by (simp add: exampleDocument_def mkPosition_def mkRange_def validPosition_def
        validateRange_def validatePosition_def lineRead_def new_Range_def new_Position_def
        isBefore_def)

text \<open>
  C6. \<open>validateRange\<close> does not put the endpoints in order: a range whose start lies
  after its end, and whose endpoints both come back from \<open>validatePosition\<close> unchanged,
  is returned as it is.
\<close>

theorem validateRange_keeps_out_of_order:
  assumes "isAfter (start r) (end' r)"
    and "validatePosition d (PositionObj (start r)) h = Inr (start r, h)"
    and "validatePosition d (PositionObj (end' r)) h = Inr (end' r, h)"
  shows "validateRange d (RangeObj r) h = Inr (r, h) \<and> isAfter (start r) (end' r)"
  using assms by (simp add: validateRange_unchanged)

theorem validateRange_keeps_out_of_order_witness:
  "isAfter (mkPosition 0 1 2) (mkPosition 1 0 3)
   \<and> validatePosition exampleDocument (PositionObj (mkPosition 0 1 2)) 6
       = Inr (mkPosition 0 1 2, 6)
   \<and> validatePosition exampleDocument (PositionObj (mkPosition 1 0 3)) 6
       = Inr (mkPosition 1 0 3, 6)
   \<and> validateRange exampleDocument
        (RangeObj (mkRange 2 (mkPosition 0 1 2) (mkPosition 1 0 3))) 6
       = Inr (mkRange 2 (mkPosition 0 1 2) (mkPosition 1 0 3), 6)"
proof -
  have a: "isAfter (start (mkRange 2 (mkPosition 0 1 2) (mkPosition 1 0 3)))
             (end' (mkRange 2 (mkPosition 0 1 2) (mkPosition 1 0 3)))"
    by (simp add: isAfter_def mkRange_def mkPosition_def)
  have s: "validatePosition exampleDocument
             (PositionObj (start (mkRange 2 (mkPosition 0 1 2) (mkPosition 1 0 3)))) 6
           = Inr (start (mkRange 2 (mkPosition 0 1 2) (mkPosition 1 0 3)), 6)"
    by (simp add: exampleDocument_def mkRange_def mkPosition_def validatePosition_def
          lineRead_def)
  have e: "validatePosition exampleDocument
             (PositionObj (end' (mkRange 2 (mkPosition 0 1 2) (mkPosition 1 0 3)))) 6
           = Inr (end' (mkRange 2 (mkPosition 0 1 2) (mkPosition 1 0 3)), 6)"
    by (simp add: exampleDocument_def mkRange_def mkPosition_def validatePosition_def
          lineRead_def)
  show ?thesis
    using validateRange_keeps_out_of_order [OF a s e] a s e
    by (simp add: mkRange_def)
qed

section \<open>Properties of the line descriptor cache\<close>

lemma lineAt_Position: "lineAt d (PositionObj p) h = lineAt d (Number (line p)) h"
  by (simp add: lineAt_def)

lemma lineAt_illegal:
  "l < 0 \<or> int (length (lines d)) \<le> l \<Longrightarrow> lineAt d (Number l) h = Inl IllegalValueForLine"
  by (auto simp add: lineAt_def)

lemma length_takeWhile_all:
  "length (takeWhile P xs) = length xs \<longleftrightarrow> list_all P xs"
  by (induction xs) auto

lemma lineAt_cached:
  assumes "0 \<le> l" and "l < int (length (lines d))"
    and "textLines d (nat l) = Some t"
    and "lineNumber t = l" and "text' t = lines d ! nat l"
  shows "lineAt d (Number l) h = Inr (t, d, h)"
  using assms by (simp add: lineAt_def lineRead_in_range)

lemma lineAt_recomputes:
  assumes "0 \<le> l" and "l < int (length (lines d))"
    and "case textLines d (nat l) of
           None \<Rightarrow> True
         | Some t \<Rightarrow> lineNumber t \<noteq> l \<or> text' t \<noteq> lines d ! nat l"
  shows "recomputedFrom d l h (lineAt d (Number l) h)"
proof -
  have c: "(case textLines d (nat l) of
             None \<Rightarrow> True
           | Some t \<Rightarrow> lineNumber t \<noteq> l \<or> Some (text' t) \<noteq> lineRead (lines d) l)"
    using assms by (simp add: lineRead_in_range split: option.splits)
  have nl: "\<not> (l < 0 \<or> int (length (lines d)) \<le> l)" using assms(1,2) by linarith
  show ?thesis
    unfolding lineAt_def
    using c nl assms(1,2)
    by (simp add: lineRead_in_range recomputedFrom_def new_Range_def new_Position_def isBefore_def
          coords_def Let_def length_takeWhile_all)
qed


lemma recomputedFrom_returns: "recomputedFrom d l h res \<Longrightarrow> \<not> isl res"
  by (cases res) (simp_all add: recomputedFrom_def)

lemma lineAt_in_range_returns:
  assumes "0 \<le> l" and "l < int (length (lines d))"
  shows "\<not> isl (lineAt d (Number l) h)"
proof (cases "case textLines d (nat l) of
                None \<Rightarrow> True
              | Some t \<Rightarrow> lineNumber t \<noteq> l \<or> text' t \<noteq> lines d ! nat l")
  case True
  then show ?thesis
    using lineAt_recomputes [OF assms] recomputedFrom_returns by blast
next
  case False
  then obtain t where "textLines d (nat l) = Some t" "lineNumber t = l"
    "text' t = lines d ! nat l"
    by (auto split: option.splits)
  then show ?thesis using lineAt_cached [OF assms] by simp
qed

lemma lineAt_fails_iff:
  "isl (lineAt d (Number l) h) \<longleftrightarrow> l < 0 \<or> int (length (lines d)) \<le> l"
proof (cases "l < 0 \<or> int (length (lines d)) \<le> l")
  case True
  then show ?thesis by (simp add: lineAt_illegal)
next
  case False
  then have "0 \<le> l" "l < int (length (lines d))" by linarith+
  then show ?thesis using False lineAt_in_range_returns by blast
qed

text \<open>
  C3. For a line index \<open>i\<close> of the document, \<open>lineAt(i)\<close> returns the descriptor cached
  in slot \<open>i\<close>, leaving the document and the allocation counter as they were, exactly
  when the descriptor's \<open>lineNumber\<close> is \<open>i\<close> and its \<open>text\<close> is the current content of
  line \<open>i\<close>. When the slot is empty or the descriptor differs in either, the call
  recomputes the descriptor from the current text, stores it in slot \<open>i\<close>, and what it
  returns is not the cached descriptor.
\<close>

theorem lineAt_cache:
  assumes "0 \<le> i" and "i < int (length (lines d))"
  shows "case textLines d (nat i) of
           None \<Rightarrow> recomputedFrom d i h (lineAt d (Number i) h)
         | Some t \<Rightarrow>
             if lineNumber t = i \<and> text' t = lines d ! nat i
             then lineAt d (Number i) h = Inr (t, d, h)
             else recomputedFrom d i h (lineAt d (Number i) h)
                  \<and> returnedLine (lineAt d (Number i) h) \<noteq> Inr t"
proof (cases "textLines d (nat i)")
  case None
  then show ?thesis using lineAt_recomputes [OF assms, of h] by simp
next
  case (Some t)
  show ?thesis
  proof (cases "lineNumber t = i \<and> text' t = lines d ! nat i")
    case True
    then show ?thesis using Some lineAt_cached [OF assms Some, of h] by simp
  next
    case False
    then have r: "recomputedFrom d i h (lineAt d (Number i) h)"
      using Some lineAt_recomputes [OF assms, of h] by auto
    then have "returnedLine (lineAt d (Number i) h) \<noteq> Inr t"
      using False
      by (auto simp add: recomputedFrom_def returnedLine_def split: sum.splits)
    with r have "recomputedFrom d i h (lineAt d (Number i) h)
                 \<and> returnedLine (lineAt d (Number i) h) \<noteq> Inr t" ..
    then show ?thesis unfolding Some option.case if_not_P [OF False] .
  qed
qed

theorem lineAt_cache_witness:
  "0 \<le> (0::int) \<and> 0 < int (length (lines cachedDocument))
   \<and> lineAt cachedDocument (Number 0) 20 = Inr (cachedLine0, cachedDocument, 20)
   \<and> 1 < int (length (lines cachedDocument))
   \<and> returnedLine (lineAt cachedDocument (Number 1) 20) =
       Inr \<lparr>textLine_ref = 23, lineNumber = 1,
            range' = mkRange 22 (mkPosition 20 1 0) (mkPosition 21 1 3),
            rangeIncludingLineBreak = mkRange 22 (mkPosition 20 1 0) (mkPosition 21 1 3),
            text' = ''baz'', firstNonWhitespaceCharacterIndex = 0,
            isEmptyOrWhitespace = False\<rparr>"
  using lineAt_cache [of 0 cachedDocument 20] lineAt_cache [of 1 cachedDocument 20]
  by (simp add: cachedDocument_def exampleDocument_def cachedLine0_def staleLine1_def
        lineAt_def lineRead_def returnedLine_def new_Range_def new_Position_def isBefore_def
        mkRange_def mkPosition_def isWhitespace_def Let_def)

text \<open>
  C7. \<open>lineAt\<close> raises \<open>Illegal value for `line`\<close> exactly when the line index, given
  as a number or as the line of a position, is negative or at least \<open>lineCount\<close>, and
  it fails in no other way; it does not clamp. Validation of a position or of a range
  never raises that error, and on a document with at least one line it does not fail
  at all.
\<close>

theorem lineAt_fails_out_of_range:
  "(lineAt d (Number n) h = Inl IllegalValueForLine
      \<longleftrightarrow> n < 0 \<or> int (length (lines d)) \<le> n)
   \<and> (isl (lineAt d (Number n) h) \<longleftrightarrow> n < 0 \<or> int (length (lines d)) \<le> n)
   \<and> (lineAt d (PositionObj p) h = Inl IllegalValueForLine
      \<longleftrightarrow> line p < 0 \<or> int (length (lines d)) \<le> line p)
   \<and> (isl (lineAt d (PositionObj p) h) \<longleftrightarrow> line p < 0 \<or> int (length (lines d)) \<le> line p)
   \<and> validatePosition d (PositionObj q) h \<noteq> Inl IllegalValueForLine
   \<and> validateRange d (RangeObj r) h \<noteq> Inl IllegalValueForLine
   \<and> (lines d \<noteq> [] \<longrightarrow>
        \<not> isl (validatePosition d (PositionObj q) h)
        \<and> \<not> isl (validateRange d (RangeObj r) h))"
proof -
  have a: "lineAt d (Number l) h = Inl IllegalValueForLine
           \<longleftrightarrow> l < 0 \<or> int (length (lines d)) \<le> l" for l
    using lineAt_fails_iff [of d l h] lineAt_illegal [of l d h]
    by (cases "lineAt d (Number l) h") auto
  have v: "\<not> isl (validatePosition d (PositionObj q) h)
           \<and> \<not> isl (validateRange d (RangeObj r) h)" if ne: "lines d \<noteq> []"
  proof -
    obtain q1 h1 where "validatePosition d (PositionObj q) h = Inr (q1, h1)"
      by (rule validatePosition_returns [OF ne])
    moreover obtain r1 h2 where "validateRange d (RangeObj r) h = Inr (r1, h2)"
      by (rule validateRange_returns [OF ne])
    ultimately show ?thesis by simp
  qed
  have w: "validatePosition d (PositionObj q1) h1 \<noteq> Inl IllegalValueForLine" for q1 h1
    by (simp add: validatePosition_def new_Position_def Let_def split: option.splits)
  have "validateRange d (RangeObj r) h \<noteq> Inl IllegalValueForLine"
    using w by (auto simp add: validateRange_def split: sum.splits)
  then show ?thesis
    using a [of n] a [of "line p"] lineAt_fails_iff [of d n h]
      lineAt_fails_iff [of d "line p" h] v w
    by (simp add: lineAt_Position)
qed

theorem lineAt_fails_out_of_range_witness:
  "lineAt exampleDocument (Number 2) 6 = Inl IllegalValueForLine
   \<and> lineAt exampleDocument (PositionObj (mkPosition 0 (-1) 0)) 6 = Inl IllegalValueForLine
   \<and> \<not> isl (lineAt exampleDocument (Number 1) 6)
   \<and> lines exampleDocument \<noteq> []
   \<and> validatePosition exampleDocument (PositionObj (mkPosition 0 2 0)) 6
       = Inr (mkPosition 6 1 3, 7)
   \<and> \<not> isl (validateRange exampleDocument
               (RangeObj (mkRange 2 (mkPosition 0 (-1) 0) (mkPosition 1 2 0))) 6)"
  using lineAt_fails_out_of_range
    [of exampleDocument 2 6 "mkPosition 0 (-1) 0" "mkPosition 0 2 0"
        "mkRange 2 (mkPosition 0 (-1) 0) (mkPosition 1 2 0)"]
    lineAt_fails_out_of_range
    [of exampleDocument 1 6 "mkPosition 0 (-1) 0" "mkPosition 0 2 0"
        "mkRange 2 (mkPosition 0 (-1) 0) (mkPosition 1 2 0)"]
  by (simp add: exampleDocument_def mkPosition_def mkRange_def validatePosition_def
        lineRead_def new_Position_def)

section \<open>Properties of the text of a range\<close>

lemma substring_within:
  assumes "0 \<le> a" "a \<le> int (length s)" "0 \<le> b" "b \<le> int (length s)"
  shows "substring s a b =
           take (max (nat a) (nat b) - min (nat a) (nat b)) (drop (min (nat a) (nat b)) s)"
proof -
  have a1: "min (max a 0) (int (length s)) = a" using assms(1,2) by arith
  have b1: "min (max b 0) (int (length s)) = b" using assms(3,4) by arith
  have n1: "nat (max a b - min a b) = max (nat a) (nat b) - min (nat a) (nat b)"
    using assms(1,3) by arith
  have n2: "nat (min a b) = min (nat a) (nat b)"
    using assms(1,3) by arith
  have "substring s a b = take (nat (max a b - min a b)) (drop (nat (min a b)) s)"
    by (simp only: substring_def Let_def a1 b1)
  then show ?thesis by (simp only: n1 n2)
qed

lemma substringFrom_within:
  assumes "0 \<le> a" "a \<le> int (length s)"
  shows "substringFrom s a = drop (nat a) s"
proof -
  have le: "nat a \<le> length s" using assms by linarith
  have "substringFrom s a =
          take (max (nat a) (length s) - min (nat a) (length s))
            (drop (min (nat a) (length s)) s)"
    using substring_within [OF assms, of "int (length s)"]
    by (simp add: substringFrom_def)
  also have "\<dots> = take (length s - nat a) (drop (nat a) s)"
    using le by (simp only: max_absorb2 min_absorb1)
  finally show ?thesis by simp
qed

lemma substring_prefix:
  assumes "0 \<le> b" "b \<le> int (length s)"
  shows "substring s 0 b = take (nat b) s"
  using substring_within [of 0 s b] assms by simp

lemma pushLines_in_range:
  "0 \<le> i \<Longrightarrow> e \<le> int (length ls) \<Longrightarrow>
   pushLines ls i e acc = acc @ map (\<lambda>j. Some (ls ! j)) [nat i ..< nat e]"
proof (induction ls i e acc rule: pushLines.induct)
  case (1 ls i e acc)
  show ?case
  proof (cases "i < e")
    case True
    then have r: "lineRead ls i = Some (ls ! nat i)"
      using "1.prems" by (simp add: lineRead_in_range)
    have "nat i < nat e" using True "1.prems" by linarith
    then have u: "[nat i ..< nat e] = nat i # [nat (i + 1) ..< nat e]"
      using "1.prems" by (simp add: upt_conv_Cons nat_add_distrib)
    have "pushLines ls i e acc = pushLines ls (i + 1) e (acc @ [lineRead ls i])"
      using True by (simp add: pushLines.simps [of ls i])
    also have "\<dots> = (acc @ [lineRead ls i]) @ map (\<lambda>j. Some (ls ! j)) [nat (i + 1) ..< nat e]"
      using "1.IH" [OF True] "1.prems" by simp
    finally show ?thesis using r u by simp
  next
    case False
    then have "nat e \<le> nat i" by linarith
    then show ?thesis using False by (simp add: pushLines.simps [of ls i])
  qed
qed

lemma join_Cons: "ys \<noteq> [] \<Longrightarrow> join (Some x # ys) sep = x @ sep @ join ys sep"
  by (cases ys) simp_all

lemma join_lines:
  "join (map Some xs @ [Some y]) sep = concat (map (\<lambda>l. l @ sep) xs) @ y"
  by (induction xs) (simp_all add: join_Cons)

lemma validatePosition_empty_document:
  assumes "lines d = []" and "validatePosition d (PositionObj p) h = Inr (p1, h1)"
  shows "coords p1 = (0, 0)"
  using assms
  by (auto simp add: validatePosition_def lineRead_def new_Position_def coords_def Let_def
        split: if_splits)

lemma validateRange_empty_document:
  assumes "lines d = []" and "validateRange d (RangeObj r) h = Inr (r1, h1)"
  shows "isEmpty r1"
proof -
  from assms(2) obtain s1 k1 e1 k2
    where s: "validatePosition d (PositionObj (start r)) h = Inr (s1, k1)"
      and e: "validatePosition d (PositionObj (end' r)) k1 = Inr (e1, k2)"
      and r1: "r1 = r \<and> s1 = start r \<and> e1 = end' r
               \<or> r1 = fst (new_Range (line s1) (character s1) (line e1) (character e1) k2)"
    by (auto simp add: validateRange_def split: sum.splits if_splits)
  have "coords s1 = (0, 0)" "coords e1 = (0, 0)"
    using validatePosition_empty_document [OF assms(1)] s e by blast+
  then show ?thesis
    using r1 by (auto simp add: isEmpty_def coords_def new_Range_def new_Position_def isBefore_def)
qed

lemma getTextInRange_valid_range:
  assumes vr: "validateRange d v h = Inr (r1, h1)"
    and vs: "validPosition d (start r1)" and ve: "validPosition d (end' r1)"
  shows "getTextInRange d v h = Inr (rangeText d r1, h1)"
proof -
  let ?sl = "line (start r1)" and ?sc = "character (start r1)"
  let ?el = "line (end' r1)" and ?ec = "character (end' r1)"
  let ?s = "lines d ! nat ?sl" and ?e = "lines d ! nat ?el"
  have sl: "0 \<le> ?sl" "?sl < int (length (lines d))"
    and sc: "0 \<le> ?sc" "?sc \<le> int (length ?s)"
    using vs by (simp_all add: validPosition_def)
  have el: "0 \<le> ?el" "?el < int (length (lines d))"
    and ec: "0 \<le> ?ec" "?ec \<le> int (length ?e)"
    using ve by (simp_all add: validPosition_def)
  have rs: "lineRead (lines d) ?sl = Some ?s" using sl by (rule lineRead_in_range)
  have re: "lineRead (lines d) ?el = Some ?e" using el by (rule lineRead_in_range)
  show ?thesis
  proof (cases "isEmpty r1")
    case True
    then show ?thesis using vr by (simp add: getTextInRange_def rangeText_def)
  next
    case notEmpty: False
    show ?thesis
    proof (cases "isSingleLine r1")
      case True
      then have same: "?el = ?sl" by (simp add: isSingleLine_def)
      have "substring ?s ?sc ?ec =
              take (max (nat ?sc) (nat ?ec) - min (nat ?sc) (nat ?ec))
                (drop (min (nat ?sc) (nat ?ec)) ?s)"
        using sc ec same by (simp add: substring_within)
      then show ?thesis
        using vr notEmpty True rs by (simp add: getTextInRange_def rangeText_def Let_def)
    next
      case False
      have a: "substringFrom ?s ?sc = drop (nat ?sc) ?s"
        using sc by (rule substringFrom_within)
      have b: "substring ?e 0 ?ec = take (nat ?ec) ?e"
        using ec by (rule substring_prefix)
      have "0 \<le> ?sl + 1" "?el \<le> int (length (lines d))" using sl el by linarith+
      then have p: "pushLines (lines d) (?sl + 1) ?el [Some (drop (nat ?sc) ?s)] =
                 [Some (drop (nat ?sc) ?s)]
                 @ map (\<lambda>j. Some (lines d ! j)) [nat (?sl + 1) ..< nat ?el]"
        by (rule pushLines_in_range)
      have m: "map (\<lambda>j. Some (lines d ! j)) [nat (?sl + 1) ..< nat ?el] =
               map Some (linesStrictlyBetween (lines d) ?sl ?el)"
        by (simp add: linesStrictlyBetween_def)
      have j: "join (([Some (drop (nat ?sc) ?s)]
                  @ map Some (linesStrictlyBetween (lines d) ?sl ?el))
                  @ [Some (take (nat ?ec) ?e)]) (eol d) =
               drop (nat ?sc) ?s @ eol d
               @ concat (map (\<lambda>l. l @ eol d) (linesStrictlyBetween (lines d) ?sl ?el))
               @ take (nat ?ec) ?e"
        by (simp add: join_Cons join_lines)
      have "getTextInRange d v h =
              Inr (join ((pushLines (lines d) (?sl + 1) ?el [Some (substringFrom ?s ?sc)])
                     @ [Some (substring ?e 0 ?ec)]) (eol d), h1)"
        using vr notEmpty False rs re by (simp add: getTextInRange_def Let_def)
      also have "\<dots> = Inr (drop (nat ?sc) ?s @ eol d
               @ concat (map (\<lambda>l. l @ eol d) (linesStrictlyBetween (lines d) ?sl ?el))
               @ take (nat ?ec) ?e, h1)"
        by (simp only: a b p m j)
      also have "\<dots> = Inr (rangeText d r1, h1)"
        using notEmpty False by (simp add: rangeText_def Let_def)
      finally show ?thesis .
    qed
  qed
qed

text \<open>
  C4. \<open>getTextInRange\<close> validates its argument first and fails as validation fails.
  Of the validated range it returns the empty string when the range is empty; when the
  range lies on one line, the characters of that line between the two character
  offsets; and otherwise the rest of the start line from \<open>start.character\<close>, the whole
  lines strictly between the two lines and the first \<open>end.character\<close> characters of
  the end line, joined with the terminator of the document. No line is read outside
  the document.
\<close>

theorem getTextInRange_text:
  "getTextInRange d v h =
     (case validateRange d v h of
        Inl e \<Rightarrow> Inl e
      | Inr (r1, h1) \<Rightarrow> Inr (rangeText d r1, h1))"
proof (cases "validateRange d v h")
  case (Inl e)
  then show ?thesis by (simp add: getTextInRange_def)
next
  case (Inr x)
  obtain r1 h1 where x: "x = (r1, h1)" by (cases x)
  from Inr x obtain r where v: "v = RangeObj r"
    by (cases v) (simp_all add: validateRange_def)
  have vr: "validateRange d v h = Inr (r1, h1)" using Inr x by simp
  have "getTextInRange d v h = Inr (rangeText d r1, h1)"
  proof (cases "lines d = []")
    case True
    then have "isEmpty r1" using vr v validateRange_empty_document by blast
    then show ?thesis using vr by (simp add: getTextInRange_def rangeText_def)
  next
    case False
    obtain r2 h2 where "validateRange d (RangeObj r) h = Inr (r2, h2)"
      and "validPosition d (start r2)" and "validPosition d (end' r2)"
      by (rule validateRange_returns [OF False])
    then have "validPosition d (start r1)" "validPosition d (end' r1)"
      using vr v by simp_all
    with vr show ?thesis by (rule getTextInRange_valid_range)
  qed
  then show ?thesis using vr by simp
qed

theorem getTextInRange_text_witness:
  "getTextInRange exampleDocument
     (RangeObj (mkRange 2 (mkPosition 0 0 2) (mkPosition 1 0 5))) 6 = Inr (''foo'', 6)
   \<and> getTextInRange exampleDocument
     (RangeObj (mkRange 2 (mkPosition 0 0 6) (mkPosition 1 7 1))) 6
       = Inr (''bar'' @ [CHR 0x0A] @ ''baz'', 10)
   \<and> getTextInRange exampleDocument
     (RangeObj (mkRange 2 (mkPosition 0 1 1) (mkPosition 1 1 1))) 6 = Inr ([], 6)"
  using getTextInRange_text
      [of exampleDocument "RangeObj (mkRange 2 (mkPosition 0 0 2) (mkPosition 1 0 5))" 6]
    getTextInRange_text
      [of exampleDocument "RangeObj (mkRange 2 (mkPosition 0 0 6) (mkPosition 1 7 1))" 6]
    getTextInRange_text
      [of exampleDocument "RangeObj (mkRange 2 (mkPosition 0 1 1) (mkPosition 1 1 1))" 6]
  by (simp add: exampleDocument_def mkRange_def mkPosition_def validateRange_def
        validatePosition_def lineRead_def new_Range_def new_Position_def isBefore_def rangeText_def
        isEmpty_def isSingleLine_def linesStrictlyBetween_def Let_def)

section \<open>Properties of offsets\<close>

lemma getAccumulatedValue_before:
  assumes "0 \<le> l"
  shows "getAccumulatedValue vs (l - 1) = int (sum_list (take (nat l) vs))"
proof (cases "l = 0")
  case True
  then show ?thesis by (simp add: getAccumulatedValue_def)
next
  case False
  with assms have "0 \<le> l - 1" "nat (l - 1) + 1 = nat l" by linarith+
  then show ?thesis by (simp add: getAccumulatedValue_def)
qed

lemma getIndexOf_within_line:
  "l < length vs \<Longrightarrow> c < vs ! l \<Longrightarrow> getIndexOf vs (sum_list (take l vs) + c) = (l, c)"
proof (induction vs arbitrary: l)
  case Nil
  then show ?case by simp
next
  case (Cons v vs)
  show ?case
  proof (cases l)
    case 0
    then have "c < v" using Cons.prems by simp
    then show ?thesis using 0 by (cases vs) simp_all
  next
    case (Suc k)
    then have k: "k < length vs" "c < vs ! k" using Cons.prems by simp_all
    then obtain w ws where vs: "vs = w # ws" by (cases vs) auto
    have "getIndexOf vs (sum_list (take k vs) + c) = (k, c)"
      using Cons.IH [OF k] .
    then show ?thesis using Suc vs by simp
  qed
qed

lemma offsetAt_valid:
  assumes "validPosition d p"
  shows "offsetAt d (PositionObj p) h =
           Inr (int (sum_list (take (nat (line p)) (lineStarts d)) + nat (character p)), h)"
proof -
  have "0 \<le> line p" "0 \<le> character p" using assms by (simp_all add: validPosition_def)
  then show ?thesis
    by (simp add: offsetAt_def validatePosition_valid [OF assms] getAccumulatedValue_before)
qed

lemma positionAt_within_line:
  assumes "l < length (lines d)" and "c \<le> length (lines d ! l)" and "eol d \<noteq> []"
  shows "positionAt d (of_int (int (sum_list (take l (lineStarts d)) + c))) h =
           Inr (new_Position (int l) (int c) h)"
proof -
  have len: "l < length (lineStarts d)" using assms(1) by (simp add: lineStarts_def)
  have "lineStarts d ! l = length (lines d ! l) + length (eol d)"
    using assms(1) by (simp add: lineStarts_def)
  moreover have "0 < length (eol d)" using assms(3) by simp
  ultimately have "c < lineStarts d ! l" using assms(2) by linarith
  then have g: "getIndexOf (lineStarts d) (sum_list (take l (lineStarts d)) + c) = (l, c)"
    using len by (rule getIndexOf_within_line [rotated])
  have r: "lineRead (lines d) (int l) = Some (lines d ! l)"
    using assms(1) by (simp add: lineRead_def)
  have m: "min (int c) (int (length (lines d ! l))) = int c" using assms(2) by simp
  show ?thesis
    unfolding positionAt_def
    by (simp add: g r m Let_def del: of_nat_add of_nat_sum)
qed

text \<open>
  C2 (as amended). In a document whose terminator is not the empty string, every valid
  position \<open>p\<close> has an offset, and \<open>positionAt\<close> of that offset has the coordinates
  of \<open>p\<close>.
\<close>

theorem positionAt_offsetAt:
  assumes "validPosition d p" and "eol d \<noteq> []"
  shows "case offsetAt d (PositionObj p) h of
           Inl e \<Rightarrow> False
         | Inr (off, h1) \<Rightarrow> resultCoords (positionAt d (of_int off) h1) = Inr (coords p)"
proof -
  have b: "0 \<le> line p" "0 \<le> character p" "nat (line p) < length (lines d)"
    "nat (character p) \<le> length (lines d ! nat (line p))"
    using assms(1) by (auto simp add: validPosition_def)
  let ?off = "int (sum_list (take (nat (line p)) (lineStarts d)) + nat (character p))"
  have e: "positionAt d (of_int ?off) h =
             Inr (new_Position (int (nat (line p))) (int (nat (character p))) h)"
    by (rule positionAt_within_line [OF b(3,4) assms(2)])
  have rc: "resultCoords (positionAt d (of_int ?off) h) = Inr (coords p)"
    unfolding e using b(1,2) by (simp add: resultCoords_def new_Position_def coords_def)
  have o: "offsetAt d (PositionObj p) h = Inr (?off, h)"
    by (rule offsetAt_valid [OF assms(1)])
  show ?thesis unfolding o using rc by (simp only: sum.case prod.case)
qed

theorem positionAt_offsetAt_witness:
  "validPosition exampleDocument (mkPosition 0 1 2) \<and> eol exampleDocument \<noteq> []
   \<and> offsetAt exampleDocument (PositionObj (mkPosition 0 1 2)) 6 = Inr (12, 6)
   \<and> positionAt exampleDocument 12 6 = Inr (mkPosition 6 1 2, 7)"
  using positionAt_offsetAt [of exampleDocument "mkPosition 0 1 2" 6]
  by (simp add: exampleDocument_def mkPosition_def validPosition_def offsetAt_def
        validatePosition_def lineRead_def lineStarts_def getAccumulatedValue_def
        positionAt_def new_Position_def)

text \<open>
  C2 as stated, for every document, fails when the terminator is the empty string: in
  the document with lines \<open>a\<close> and \<open>b\<close> the valid position \<open>(0, 1)\<close>, the end of the
  first line, has offset 1, which is also the offset of \<open>(1, 0)\<close>, and \<open>positionAt\<close>
  returns \<open>(1, 0)\<close>.
\<close>

theorem positionAt_offsetAt_counterexample:
  "validPosition unterminatedDocument (mkPosition 0 0 1)
   \<and> offsetAt unterminatedDocument (PositionObj (mkPosition 0 0 1)) 6 = Inr (1, 6)
   \<and> positionAt unterminatedDocument 1 6 = Inr (mkPosition 6 1 0, 7)"
  by (simp add: unterminatedDocument_def mkPosition_def validPosition_def offsetAt_def
        validatePosition_def lineRead_def lineStarts_def getAccumulatedValue_def
        positionAt_def new_Position_def)

section \<open>Properties of the word at a position\<close>

text \<open>
  C8. When \<open>getWordRangeAtPosition\<close> is called without a pattern, or with a pattern
  that \<open>regExpLeadsToEndlessLoop\<close> judges to lead to an endless loop, the scan is run
  with what is registered for the language identifier of the document, whatever the
  imported helpers are: the pattern that was passed has no part in the result.
\<close>

theorem getWordRangeAtPosition_substitutes:
  assumes "case regexp of None \<Rightarrow> True | Some re \<Rightarrow> regExpLeadsToEndlessLoop H re"
  shows "getWordRangeAtPosition H m d v regexp h =
           (case validatePosition d v h of
              Inl e \<Rightarrow> Inl e
            | Inr (position, h1) \<Rightarrow>
                wordRangeWith H d position (getWordDefinitionFor (languageId d) m) h1)"
  using assms
  by (cases regexp; cases "validatePosition d v h")
     (simp_all add: getWordRangeAtPosition_def split: prod.splits)

theorem getWordRangeAtPosition_substitutes_witness:
  "regExpLeadsToEndlessLoop exampleHelper ''(a+)+''
   \<and> getWordDefinitionFor (languageId exampleDocument) exampleWordDefinitions = Some ''[a-z]+''
   \<and> getWordRangeAtPosition exampleHelper exampleWordDefinitions exampleDocument
        (PositionObj (mkPosition 0 0 3)) (Some ''(a+)+'') 6
       = Inr (Some (mkRange 8 (mkPosition 6 0 2) (mkPosition 7 0 5)), 9)
   \<and> getWordRangeAtPosition exampleHelper exampleWordDefinitions exampleDocument
        (PositionObj (mkPosition 0 0 3)) None 6
       = Inr (Some (mkRange 8 (mkPosition 6 0 2) (mkPosition 7 0 5)), 9)"
  using getWordRangeAtPosition_substitutes
      [where regexp = "Some ''(a+)+''" and H = exampleHelper
         and m = exampleWordDefinitions and d = exampleDocument
         and v = "PositionObj (mkPosition 0 0 3)" and h = 6]
    getWordRangeAtPosition_substitutes
      [where regexp = None and H = exampleHelper
         and m = exampleWordDefinitions and d = exampleDocument
         and v = "PositionObj (mkPosition 0 0 3)" and h = 6]
  by (simp add: exampleHelper_def exampleWordDefinitions_def exampleDocument_def
        setWordDefinitionFor_def getWordDefinitionFor_def mkPosition_def mkRange_def
        validatePosition_def lineRead_def wordRangeWith_def new_Range_def new_Position_def isBefore_def)

section \<open>Reads after validation\<close>

lemma pushLines_defined:
  assumes "0 \<le> i" and "e \<le> int (length ls)"
  shows "None \<notin> set (pushLines ls i e [])"
  using assms by (auto simp add: pushLines_in_range)

text \<open>
  C10. On a document with at least one line \<open>validatePosition\<close> returns, for every
  position, a position with \<open>0 \<le> line < lineCount\<close> and
  \<open>0 \<le> character \<le> length (lines[line])\<close>. So no operation reads outside the array
  of lines after validation. \<open>offsetAt\<close> returns the prefix sum at index \<open>line - 1\<close> of
  the validated position, an index between \<open>-1\<close> and the last one, plus the character.
  \<open>getWordRangeAtPosition\<close> hands the scan the text of the line of the validated
  position, a line of the document, whatever the helpers and the pattern are: it is the
  scan of that text, and a scan that raises on \<open>undefined\<close> gives the same result.
  \<open>getTextInRange\<close> reads the start line, the end line and the lines between them of a
  validated range inside the array, and returns the text of that range. None of the
  three fails on a read.
\<close>

theorem validatePosition_in_bounds:
  assumes "lines d \<noteq> []"
  shows "(case validatePosition d (PositionObj p) h of
            Inl e \<Rightarrow> False
          | Inr (p1, h1) \<Rightarrow>
              validPosition d p1
              \<and> lineRead (lines d) (line p1) = Some (lines d ! nat (line p1))
              \<and> -1 \<le> line p1 - 1 \<and> line p1 - 1 < int (length (lineStarts d))
              \<and> offsetAt d (PositionObj p) h =
                  Inr (getAccumulatedValue (lineStarts d) (line p1 - 1) + character p1, h1)
              \<and> wordRangeWith H d p1 re h1 =
                  wordRangeOfText H p1 (lines d ! nat (line p1)) re h1
              \<and> getWordRangeAtPosition H m d (PositionObj p) regexp h =
                  wordRangeOfText H p1 (lines d ! nat (line p1))
                    (case regexp of
                       None \<Rightarrow> getWordDefinitionFor (languageId d) m
                     | Some re1 \<Rightarrow>
                         if regExpLeadsToEndlessLoop H re1
                         then getWordDefinitionFor (languageId d) m
                         else Some re1) h1)
       \<and> getWordRangeAtPosition (raisingOnUndefined H) m d (PositionObj p) regexp h =
           getWordRangeAtPosition H m d (PositionObj p) regexp h
       \<and> (case validateRange d (RangeObj r) h of
            Inl e \<Rightarrow> False
          | Inr (r1, h1) \<Rightarrow>
              validPosition d (start r1) \<and> validPosition d (end' r1)
              \<and> lineRead (lines d) (line (start r1)) \<noteq> None
              \<and> lineRead (lines d) (line (end' r1)) \<noteq> None
              \<and> None \<notin> set (pushLines (lines d) (line (start r1) + 1) (line (end' r1)) [])
              \<and> getTextInRange d (RangeObj r) h = Inr (rangeText d r1, h1))
       \<and> \<not> isl (offsetAt d (PositionObj p) h)
       \<and> \<not> isl (getTextInRange d (RangeObj r) h)"
proof -
  obtain p1 h1 where p1: "validatePosition d (PositionObj p) h = Inr (p1, h1)"
    and vp: "validPosition d p1"
    by (rule validatePosition_returns [OF assms])
  have bp: "0 \<le> line p1" "line p1 < int (length (lines d))"
    using vp by (simp_all add: validPosition_def)
  have rd: "lineRead (lines d) (line p1) = Some (lines d ! nat (line p1))"
    using bp by (rule lineRead_in_range)
  have ix: "-1 \<le> line p1 - 1 \<and> line p1 - 1 < int (length (lineStarts d))"
    using bp by (simp add: lineStarts_def)
  have off: "offsetAt d (PositionObj p) h =
               Inr (getAccumulatedValue (lineStarts d) (line p1 - 1) + character p1, h1)"
    using p1 by (simp add: offsetAt_def)
  have ww: "wordRangeWith K d p1 x h1 = wordRangeOfText K p1 (lines d ! nat (line p1)) x h1"
    for K :: "'a wordHelper" and x
    unfolding wordRangeWith_def wordRangeOfText_def rd by (rule refl)
  have gwK: "getWordRangeAtPosition K m d (PositionObj p) regexp h =
              wordRangeOfText K p1 (lines d ! nat (line p1))
                (case regexp of
                   None \<Rightarrow> getWordDefinitionFor (languageId d) m
                 | Some re1 \<Rightarrow>
                     if regExpLeadsToEndlessLoop K re1
                     then getWordDefinitionFor (languageId d) m
                     else Some re1) h1"
    for K :: "'a wordHelper"
    using p1 by (simp add: getWordRangeAtPosition_def ww)
  note gw = gwK [of H]
  have f1: "regExpLeadsToEndlessLoop (raisingOnUndefined H) = regExpLeadsToEndlessLoop H"
    and f2: "ensureValidWordDefinition (raisingOnUndefined H) = ensureValidWordDefinition H"
    and f3: "getWordAtText (raisingOnUndefined H) column wd (Some s) textOffset =
             getWordAtText H column wd (Some s) textOffset" for column wd s textOffset
    by (simp_all add: raisingOnUndefined_def)
  have wt: "wordRangeOfText (raisingOnUndefined H) p1 s x h1 =
            wordRangeOfText H p1 s x h1" for s x
    unfolding wordRangeOfText_def f2 f3 by (rule refl)
  have ru: "getWordRangeAtPosition (raisingOnUndefined H) m d (PositionObj p) regexp h =
              getWordRangeAtPosition H m d (PositionObj p) regexp h"
    unfolding gwK f1 wt by (rule refl)
  have a: "validPosition d p1
           \<and> lineRead (lines d) (line p1) = Some (lines d ! nat (line p1))
           \<and> -1 \<le> line p1 - 1 \<and> line p1 - 1 < int (length (lineStarts d))
           \<and> offsetAt d (PositionObj p) h =
               Inr (getAccumulatedValue (lineStarts d) (line p1 - 1) + character p1, h1)
           \<and> wordRangeWith H d p1 re h1 =
               wordRangeOfText H p1 (lines d ! nat (line p1)) re h1
           \<and> getWordRangeAtPosition H m d (PositionObj p) regexp h =
               wordRangeOfText H p1 (lines d ! nat (line p1))
                 (case regexp of
                    None \<Rightarrow> getWordDefinitionFor (languageId d) m
                  | Some re1 \<Rightarrow>
                      if regExpLeadsToEndlessLoop H re1
                      then getWordDefinitionFor (languageId d) m
                      else Some re1) h1"
    using vp rd ix off ww [of H re] gw by blast
  obtain r1 h2 where r1: "validateRange d (RangeObj r) h = Inr (r1, h2)"
    and vs: "validPosition d (start r1)" and ve: "validPosition d (end' r1)"
    by (rule validateRange_returns [OF assms])
  have bs: "0 \<le> line (start r1)" "line (start r1) < int (length (lines d))"
    and be: "0 \<le> line (end' r1)" "line (end' r1) < int (length (lines d))"
    using vs ve by (simp_all add: validPosition_def)
  have pl: "None \<notin> set (pushLines (lines d) (line (start r1) + 1) (line (end' r1)) [])"
    using bs be by (intro pushLines_defined) linarith+
  have gt: "getTextInRange d (RangeObj r) h = Inr (rangeText d r1, h2)"
    using r1 vs ve by (rule getTextInRange_valid_range)
  have b: "validPosition d (start r1) \<and> validPosition d (end' r1)
           \<and> lineRead (lines d) (line (start r1)) \<noteq> None
           \<and> lineRead (lines d) (line (end' r1)) \<noteq> None
           \<and> None \<notin> set (pushLines (lines d) (line (start r1) + 1) (line (end' r1)) [])
           \<and> getTextInRange d (RangeObj r) h = Inr (rangeText d r1, h2)"
    using vs ve bs be pl gt by (simp add: lineRead_in_range)
  have c: "\<not> isl (offsetAt d (PositionObj p) h)" using off by simp
  have e: "\<not> isl (getTextInRange d (RangeObj r) h)" using gt by simp
  have A: "case validatePosition d (PositionObj p) h of
            Inl e \<Rightarrow> False
          | Inr (p1, h1) \<Rightarrow>
              validPosition d p1
              \<and> lineRead (lines d) (line p1) = Some (lines d ! nat (line p1))
              \<and> -1 \<le> line p1 - 1 \<and> line p1 - 1 < int (length (lineStarts d))
              \<and> offsetAt d (PositionObj p) h =
                  Inr (getAccumulatedValue (lineStarts d) (line p1 - 1) + character p1, h1)
              \<and> wordRangeWith H d p1 re h1 =
                  wordRangeOfText H p1 (lines d ! nat (line p1)) re h1
              \<and> getWordRangeAtPosition H m d (PositionObj p) regexp h =
                  wordRangeOfText H p1 (lines d ! nat (line p1))
                    (case regexp of
                       None \<Rightarrow> getWordDefinitionFor (languageId d) m
                     | Some re1 \<Rightarrow>
                         if regExpLeadsToEndlessLoop H re1
                         then getWordDefinitionFor (languageId d) m
                         else Some re1) h1"
    unfolding p1 sum.case prod.case by (rule a [unfolded p1])
  have B: "case validateRange d (RangeObj r) h of
            Inl e \<Rightarrow> False
          | Inr (r1, h1) \<Rightarrow>
              validPosition d (start r1) \<and> validPosition d (end' r1)
              \<and> lineRead (lines d) (line (start r1)) \<noteq> None
              \<and> lineRead (lines d) (line (end' r1)) \<noteq> None
              \<and> None \<notin> set (pushLines (lines d) (line (start r1) + 1) (line (end' r1)) [])
              \<and> getTextInRange d (RangeObj r) h = Inr (rangeText d r1, h1)"
    unfolding r1 sum.case prod.case by (rule b)
  from A ru B c e show ?thesis by (intro conjI)
qed

theorem validatePosition_in_bounds_witness:
  "lines exampleDocument \<noteq> []
   \<and> validatePosition exampleDocument (PositionObj (mkPosition 0 7 (-4))) 6
       = Inr (mkPosition 6 1 3, 7)
   \<and> validPosition exampleDocument (mkPosition 6 1 3)
   \<and> offsetAt exampleDocument (PositionObj (mkPosition 0 7 (-4))) 6 = Inr (13, 7)
   \<and> getWordRangeAtPosition wholeLineHelper exampleWordDefinitions exampleDocument
        (PositionObj (mkPosition 0 7 (-4))) None 6
       = Inr (Some (mkRange 9 (mkPosition 7 1 0) (mkPosition 8 1 3)), 10)
   \<and> getTextInRange exampleDocument
        (RangeObj (mkRange 2 (mkPosition 0 (-3) 8) (mkPosition 1 7 (-4)))) 6
       = Inr (''  foo bar'' @ [CHR 0x0A] @ ''baz'', 11)"
  using validatePosition_in_bounds
      [where d = exampleDocument and p = "mkPosition 0 7 (-4)" and h = 6
         and r = "mkRange 2 (mkPosition 0 (-3) 8) (mkPosition 1 7 (-4))"
         and H = wholeLineHelper and m = exampleWordDefinitions and regexp = None
         and re = None]
  by (simp add: exampleDocument_def mkPosition_def mkRange_def validPosition_def
        validatePosition_def validateRange_def lineRead_def new_Range_def new_Position_def
        isBefore_def offsetAt_def lineStarts_def getAccumulatedValue_def getTextInRange_def
        isEmpty_def isSingleLine_def substring_def substringFrom_def
        pushLines.simps Let_def getWordRangeAtPosition_def wordRangeWith_def
        wholeLineHelper_def exampleWordDefinitions_def setWordDefinitionFor_def
        getWordDefinitionFor_def)

end
